theory Spec2Isabelle
  imports Complex_Main
begin

section \<open>Strings\<close>

text \<open>
  A Python \<open>str\<close> is a sequence of Unicode code points. It is modelled by \<open>string\<close>,
  where a \<open>char\<close> stands for the code point of the same number, so the model covers the
  texts over U+0000..U+00FF and \<open>length\<close> counts what Python's \<open>len\<close> counts.

  \<open>str.isspace\<close> holds on this range for the code points 9..13, 28..31, 32, 133 and 160;
  \<open>str.strip()\<close> removes exactly these from both ends.
\<close>

definition py_isspace :: "char \<Rightarrow> bool" where
  "py_isspace c =
     (let n = (of_char c :: nat)
      in (9 \<le> n \<and> n \<le> 13) \<or> (28 \<le> n \<and> n \<le> 32) \<or> n = 133 \<or> n = 160)"

definition strip :: "string \<Rightarrow> string" where
  "strip s = rev (dropWhile py_isspace (rev (dropWhile py_isspace s)))"

text \<open>
  \<open>str.isdigit\<close> of one character: the decimal digits and the characters of numeric type
  "digit". On this range these are \<open>0\<close>..\<open>9\<close> and the superscripts U+00B2, U+00B3, U+00B9.
\<close>

definition isdigit_char :: "char \<Rightarrow> bool" where
  "isdigit_char c =
     (let n = (of_char c :: nat)
      in (48 \<le> n \<and> n \<le> 57) \<or> n = 178 \<or> n = 179 \<or> n = 185)"

text \<open>\<open>s.isdigit()\<close>: at least one character, and all of them digits.\<close>

definition isdigit :: "string \<Rightarrow> bool" where
  "isdigit s = (s \<noteq> [] \<and> list_all isdigit_char s)"

section \<open>Floats\<close>

text \<open>
  A Python \<open>float\<close> is a finite double, an infinity or NaN. Every finite double is a real
  number and doubles compare as these reals do, so the finite ones are modelled by their
  value; no arithmetic on floats is modelled. Every comparison with NaN is false.
\<close>

datatype pyfloat = Finite real | PosInf | NegInf | NaN

fun flt :: "pyfloat \<Rightarrow> pyfloat \<Rightarrow> bool" where
  "flt NaN _ = False"
| "flt _ NaN = False"
| "flt PosInf _ = False"
| "flt _ PosInf = True"
| "flt _ NegInf = False"
| "flt NegInf _ = True"
| "flt (Finite x) (Finite y) = (x < y)"

fun fle :: "pyfloat \<Rightarrow> pyfloat \<Rightarrow> bool" where
  "fle NaN _ = False"
| "fle _ NaN = False"
| "fle _ PosInf = True"
| "fle PosInf _ = False"
| "fle NegInf _ = True"
| "fle _ NegInf = False"
| "fle (Finite x) (Finite y) = (x \<le> y)"

definition fgt :: "pyfloat \<Rightarrow> pyfloat \<Rightarrow> bool" where
  "fgt a b = flt b a"

definition fge :: "pyfloat \<Rightarrow> pyfloat \<Rightarrow> bool" where
  "fge a b = fle b a"

section \<open>Grade classifier\<close>

text \<open>
  The three strings \<open>get_status\<close> returns. The argument \<open>mark\<close> is a float where the
  program calls it; the \<open>try\<close> with its bare \<open>except\<close> also admits a string or any other
  object. \<open>float(mark)\<close> is the identity on a float, raises \<open>TypeError\<close> on \<open>None\<close>, and on
  a string is Python's numeric parser, which is a parameter \<open>fs\<close> of the model
  (\<open>None\<close> where it raises \<open>ValueError\<close>).
\<close>

datatype status = PASS | FAIL | UNKNOWN

datatype pyvalue = PyFloat pyfloat | PyStr string | PyNone

fun py_float :: "(string \<Rightarrow> pyfloat option) \<Rightarrow> pyvalue \<Rightarrow> pyfloat option" where
  "py_float fs (PyFloat m) = Some m"
| "py_float fs (PyStr s) = fs s"
| "py_float fs PyNone = None"

definition get_status :: "(string \<Rightarrow> pyfloat option) \<Rightarrow> pyvalue \<Rightarrow> status" where
  "get_status fs mark =
     (case py_float fs mark of
        Some mark_float \<Rightarrow> (if fge mark_float (Finite 60) then PASS else FAIL)
      | None \<Rightarrow> UNKNOWN)"

section \<open>Date parser\<close>

text \<open>
  \<open>datetime.strptime(s, "%Y/%m/%d")\<close> yields a datetime at 00:00:00, and such datetimes
  compare as their calendar days do. A datetime is modelled by the number of days since
  \<open>datetime.min\<close>, the day 0001-01-01, which is Python's proleptic Gregorian ordinal
  minus one.
\<close>

type_synonym datetime = nat

definition datetime_min :: datetime where
  "datetime_min = 0"

definition is_leap :: "nat \<Rightarrow> bool" where
  "is_leap y = (y mod 4 = 0 \<and> (y mod 100 \<noteq> 0 \<or> y mod 400 = 0))"

definition days_before_year :: "nat \<Rightarrow> nat" where
  "days_before_year y = (y - 1) * 365 + (y - 1) div 4 - (y - 1) div 100 + (y - 1) div 400"

definition days_in_month :: "nat \<Rightarrow> nat \<Rightarrow> nat" where
  "days_in_month y m =
     (if m = 2 \<and> is_leap y then 29
      else [31, 28, 31, 30, 31, 30, 31, 31, 30, 31, 30, 31] ! (m - 1))"

definition days_before_month :: "nat \<Rightarrow> nat \<Rightarrow> nat" where
  "days_before_month y m =
     [0, 31, 59, 90, 120, 151, 181, 212, 243, 273, 304, 334] ! (m - 1)
       + (if 2 < m \<and> is_leap y then 1 else 0)"

definition digit_between :: "nat \<Rightarrow> nat \<Rightarrow> char \<Rightarrow> bool" where
  "digit_between lo hi c = (48 + lo \<le> (of_char c :: nat) \<and> (of_char c :: nat) \<le> 48 + hi)"

definition digit_val :: "char \<Rightarrow> nat" where
  "digit_val c = of_char c - 48"

text \<open>
  The directives as the regular expressions \<open>strptime\<close> compiles them to:
  \<open>%Y\<close> is \<open>\d\d\d\d\<close>, \<open>%m\<close> is \<open>1[0-2]|0[1-9]|[1-9]\<close> and \<open>%d\<close> is
  \<open>3[0-1]|[1-2]\d|0[1-9]|[1-9]| [1-9]\<close>, the alternatives tried in this order. Each
  function returns the number read and the rest of the text.
\<close>

fun match_year :: "string \<Rightarrow> (nat \<times> string) option" where
  "match_year (a # b # c # d # r) =
     (if digit_between 0 9 a \<and> digit_between 0 9 b \<and> digit_between 0 9 c \<and> digit_between 0 9 d
      then Some (1000 * digit_val a + 100 * digit_val b + 10 * digit_val c + digit_val d, r)
      else None)"
| "match_year _ = None"

fun match_slash :: "string \<Rightarrow> string option" where
  "match_slash (c # r) = (if c = CHR ''/'' then Some r else None)"
| "match_slash [] = None"

fun match_month :: "string \<Rightarrow> (nat \<times> string) option" where
  "match_month (a # b # r) =
     (if a = CHR ''1'' \<and> digit_between 0 2 b then Some (10 + digit_val b, r)
      else if a = CHR ''0'' \<and> digit_between 1 9 b then Some (digit_val b, r)
      else if digit_between 1 9 a then Some (digit_val a, b # r)
      else None)"
| "match_month [a] = (if digit_between 1 9 a then Some (digit_val a, []) else None)"
| "match_month [] = None"

fun match_day :: "string \<Rightarrow> (nat \<times> string) option" where
  "match_day (a # b # r) =
     (if a = CHR ''3'' \<and> digit_between 0 1 b then Some (30 + digit_val b, r)
      else if digit_between 1 2 a \<and> digit_between 0 9 b then Some (10 * digit_val a + digit_val b, r)
      else if a = CHR ''0'' \<and> digit_between 1 9 b then Some (digit_val b, r)
      else if digit_between 1 9 a then Some (digit_val a, b # r)
      else if a = CHR '' '' \<and> digit_between 1 9 b then Some (digit_val b, r)
      else None)"
| "match_day [a] = (if digit_between 1 9 a then Some (digit_val a, []) else None)"
| "match_day [] = None"

text \<open>
  \<open>parse_date\<close>: the text is stripped and matched; text left over after the day, the
  year 0 and a day the month does not have raise \<open>ValueError\<close>, and the bare \<open>except\<close>
  turns every failure into \<open>None\<close>.
\<close>

definition parse_date :: "string \<Rightarrow> datetime option" where
  "parse_date date_str =
     (case match_year (strip date_str) of
        None \<Rightarrow> None
      | Some (y, r1) \<Rightarrow>
     (case match_slash r1 of
        None \<Rightarrow> None
      | Some r2 \<Rightarrow>
     (case match_month r2 of
        None \<Rightarrow> None
      | Some (m, r3) \<Rightarrow>
     (case match_slash r3 of
        None \<Rightarrow> None
      | Some r4 \<Rightarrow>
     (case match_day r4 of
        None \<Rightarrow> None
      | Some (d, r5) \<Rightarrow>
          if r5 \<noteq> [] then None
          else if y < 1 then None
          else if days_in_month y m < d then None
          else Some (days_before_year y + days_before_month y m + d - 1))))))"

section \<open>Reconciliation of the subject occurrences\<close>

text \<open>
  The dictionaries of \<open>subjects_data\<close> and of \<open>final_subjects\<close> have the same seven keys.
\<close>

record subject =
  name :: string
  mark :: pyfloat
  status :: status
  semester :: string
  mark_display :: string
  release_date :: string
  parsed_date :: "datetime option"

text \<open>
  \<open>subject_groups\<close> is a \<open>defaultdict(list)\<close>; a dictionary keeps its keys in the order of
  their insertion, so it is an association list. \<open>group_append\<close> is one step of the loop:
  \<open>subject_groups[subject["name"]].append(subject)\<close>.
\<close>

fun group_append :: "subject \<Rightarrow> (string \<times> subject list) list \<Rightarrow> (string \<times> subject list) list" where
  "group_append s [] = [(name s, [s])]"
| "group_append s ((k, g) # rest) =
     (if k = name s then (k, g @ [s]) # rest else (k, g) # group_append s rest)"

definition subject_groups :: "subject list \<Rightarrow> (string \<times> subject list) list" where
  "subject_groups subjects_data = fold group_append subjects_data []"

text \<open>The sort key \<open>x["parsed_date"] or datetime.min\<close>; a datetime is never falsy.\<close>

definition date_key :: "subject \<Rightarrow> datetime" where
  "date_key x = (case parsed_date x of None \<Rightarrow> datetime_min | Some d \<Rightarrow> d)"

text \<open>
  \<open>max(iterable, key=...)\<close>: the first item is the candidate, and a later item replaces
  it when its key is greater (\<open>>\<close>) than the candidate's. An empty iterable raises
  \<open>ValueError\<close>.
\<close>

fun py_max_from :: "('a \<Rightarrow> pyfloat) \<Rightarrow> 'a \<Rightarrow> 'a list \<Rightarrow> 'a" where
  "py_max_from k m [] = m"
| "py_max_from k m (x # xs) =
     (if fgt (k x) (k m) then py_max_from k x xs else py_max_from k m xs)"

definition py_max :: "('a \<Rightarrow> pyfloat) \<Rightarrow> 'a list \<Rightarrow> 'a option" where
  "py_max k xs = (case xs of [] \<Rightarrow> None | x # rest \<Rightarrow> Some (py_max_from k x rest))"

text \<open>
  The body of the loop over \<open>subject_groups.items()\<close>. \<open>sorted\<close> is a stable sort, as
  \<open>sort_key\<close> is; \<open>sorted_by_date[0]\<close> raises \<open>IndexError\<close> on an empty list. An
  exception leaves \<open>fetch_student_data\<close> through its last handler, which returns \<open>None\<close>.
\<close>

definition reconcile_group :: "(string \<Rightarrow> pyfloat option) \<Rightarrow> string \<times> subject list \<Rightarrow> subject option" where
  "reconcile_group fs item =
     (case item of (subject_name, occurrences) \<Rightarrow>
       (case sort_key date_key occurrences of
          [] \<Rightarrow> None
        | oldest # _ \<Rightarrow>
       (case py_max mark occurrences of
          None \<Rightarrow> None
        | Some newest_mark_entry \<Rightarrow>
            Some \<lparr> name = subject_name,
                   mark = mark newest_mark_entry,
                   status = get_status fs (PyFloat (mark newest_mark_entry)),
                   semester = semester oldest,
                   mark_display = mark_display newest_mark_entry,
                   release_date = release_date oldest,
                   parsed_date = parsed_date oldest \<rparr>)))"

text \<open>
  \<open>final_subjects\<close> before and after \<open>final_subjects.sort(key=...)\<close>, from
  \<open>subjects_data\<close>; \<open>None\<close> when an exception was raised.
\<close>

definition final_subjects :: "(string \<Rightarrow> pyfloat option) \<Rightarrow> subject list \<Rightarrow> subject list option" where
  "final_subjects fs subjects_data = those (map (reconcile_group fs) (subject_groups subjects_data))"

definition sorted_final_subjects :: "(string \<Rightarrow> pyfloat option) \<Rightarrow> subject list \<Rightarrow> subject list option" where
  "sorted_final_subjects fs subjects_data =
     map_option (sort_key date_key) (final_subjects fs subjects_data)"

text \<open>
  One row of the table as \<open>subjects_data\<close> holds it, given its texts and the float that
  the mark text was converted to.
\<close>

definition occurrence :: "(string \<Rightarrow> pyfloat option) \<Rightarrow> string \<Rightarrow> string \<Rightarrow> string \<Rightarrow> pyfloat \<Rightarrow> string \<Rightarrow> subject" where
  "occurrence fs subject_name sem mark_str m date =
     \<lparr> name = subject_name, mark = m, status = get_status fs (PyFloat m), semester = sem,
       mark_display = mark_str, release_date = date, parsed_date = parse_date date \<rparr>"

section \<open>Report formatter\<close>

text \<open>
  The dictionary \<open>fetch_student_data\<close> returns. The report is a list of lines, joined
  with newlines into one text; a line is modelled by what it shows, and the fixed Arabic
  words and emoji around it are left to the rendering.
\<close>

record student_data =
  student_name :: string
  year :: string
  student_id :: string
  subjects :: "subject list"

datatype annotation = Check | Cross

datatype rating = Excellent | VeryGood | Good | Acceptable

datatype line =
    NameLine string
  | IdLine string
  | Blank
  | SemesterLine string
  | SubjectLine nat string
  | MarkLine annotation string
  | Separator
  | AverageLine pyfloat rating
  | CountLine nat nat

datatype message = NoData | Report "line list"

text \<open>
  The loop over \<open>enumerate(student_data["subjects"])\<close>, with the index \<open>i\<close> and
  \<open>current_semester\<close> as its state.
\<close>

fun subject_lines :: "nat \<Rightarrow> string option \<Rightarrow> subject list \<Rightarrow> line list" where
  "subject_lines i current_semester [] = []"
| "subject_lines i current_semester (subject # rest) =
     (let semester_num = (if CHR ''1'' \<in> set (semester subject) then ''1'' else ''2'');
          header = (if Some semester_num \<noteq> current_semester then [SemesterLine semester_num] else []);
          mark_line = (if fge (mark subject) (Finite 60)
                       then MarkLine Check (mark_display subject)
                       else MarkLine Cross (mark_display subject))
      in header @ [SubjectLine (i mod 4) (name subject), mark_line, Separator]
           @ subject_lines (Suc i) (Some semester_num) rest)"

definition passed_count :: "subject list \<Rightarrow> nat" where
  "passed_count ss = length (filter (\<lambda>s. fge (mark s) (Finite 60)) ss)"

definition rating_of :: "pyfloat \<Rightarrow> rating" where
  "rating_of avg_mark =
     (if fge avg_mark (Finite 85) then Excellent
      else if fge avg_mark (Finite 75) then VeryGood
      else if fge avg_mark (Finite 65) then Good
      else Acceptable)"

text \<open>
  \<open>format_student_message\<close>. The mean \<open>sum(...) / len(...)\<close> is float arithmetic and is the
  parameter \<open>mean\<close>.
\<close>

definition format_student_message :: "(pyfloat list \<Rightarrow> pyfloat) \<Rightarrow> student_data option \<Rightarrow> message" where
  "format_student_message mean student_data =
     (case student_data of
        None \<Rightarrow> NoData
      | Some sd \<Rightarrow>
          if subjects sd = [] then NoData
          else
            (let avg_mark = mean (map mark (subjects sd));
                 failed_count = length (subjects sd) - passed_count (subjects sd)
             in Report ([NameLine (student_name sd), IdLine (student_id sd), Blank]
                        @ subject_lines 0 None (subjects sd)
                        @ [Blank, AverageLine avg_mark (rating_of avg_mark),
                           CountLine (passed_count (subjects sd)) failed_count])))"

section \<open>Message handler\<close>

text \<open>
  \<open>formatted_message.split("\n\n")\<close>: the text is cut at each occurrence of two
  newlines, found from left to right.
\<close>

fun split_nn :: "string \<Rightarrow> string list" where
  "split_nn [] = [[]]"
| "split_nn [a] = [[a]]"
| "split_nn (a # b # s) =
     (if a = CHR 0x0A \<and> b = CHR 0x0A then [] # split_nn s
      else (case split_nn (b # s) of
              p # ps \<Rightarrow> (a # p) # ps
            | [] \<Rightarrow> [[a]]))"

text \<open>
  The loop over \<open>parts\<close> with \<open>current_message\<close> as its state, and the \<open>if\<close> after it;
  the result is the list of the texts sent, in order.
\<close>

fun pack_parts :: "string \<Rightarrow> string list \<Rightarrow> string list" where
  "pack_parts current_message [] = (if current_message \<noteq> [] then [current_message] else [])"
| "pack_parts current_message (part # parts) =
     (if 4000 < length (current_message @ part @ [CHR 0x0A, CHR 0x0A])
      then (if current_message \<noteq> [] then [current_message] else [])
             @ pack_parts (part @ [CHR 0x0A, CHR 0x0A]) parts
      else pack_parts (current_message @ part @ [CHR 0x0A, CHR 0x0A]) parts)"

definition send_report :: "string \<Rightarrow> string list" where
  "send_report formatted_message =
     (if 4000 < length formatted_message then pack_parts [] (split_nn formatted_message)
      else [formatted_message])"

text \<open>
  What \<open>handle_student_id\<close> does, in order: its replies, the chat action and the call of
  \<open>fetch_student_data\<close>, which makes the HTTP request. The fetcher is a parameter, and so
  is \<open>text_of\<close>, the text of a report with its fixed words, emoji and number formats.
\<close>

datatype action =
    ReplyInvalidId
  | SendTyping
  | ReplySearching
  | FetchStudentData string
  | ReplyNotFound
  | ReplyText string

definition handle_student_id ::
  "(string \<Rightarrow> student_data option) \<Rightarrow> (pyfloat list \<Rightarrow> pyfloat) \<Rightarrow> (message \<Rightarrow> string)
     \<Rightarrow> string \<Rightarrow> action list" where
  "handle_student_id fetch_student_data mean text_of text =
     (let sid = strip text
      in if \<not> isdigit sid then [ReplyInvalidId]
         else [SendTyping, ReplySearching, FetchStudentData sid]
              @ (case fetch_student_data sid of
                   None \<Rightarrow> [ReplyNotFound]
                 | Some sd \<Rightarrow>
                     map ReplyText
                       (send_report (text_of (format_student_message mean (Some sd))))))"

section \<open>Notions used to state the properties\<close>

text \<open>The elements of a list in the order in which each occurs first.\<close>

fun first_occurrences :: "'a list \<Rightarrow> 'a list" where
  "first_occurrences [] = []"
| "first_occurrences (x # xs) = x # filter (\<lambda>y. y \<noteq> x) (first_occurrences xs)"

text \<open>The annotations of the mark lines of a report, and the pass counts it shows.\<close>

fun annotations :: "line list \<Rightarrow> annotation list" where
  "annotations [] = []"
| "annotations (MarkLine a d # ls) = a # annotations ls"
| "annotations (l # ls) = annotations ls"

fun pass_counts :: "line list \<Rightarrow> nat list" where
  "pass_counts [] = []"
| "pass_counts (CountLine p f # ls) = p # pass_counts ls"
| "pass_counts (l # ls) = pass_counts ls"

section \<open>Properties of the float comparisons\<close>

lemma flt_not_fle: "flt a b \<Longrightarrow> \<not> fle b a"
  by (cases a; cases b; simp)

lemma fle_not_flt: "fle a b \<Longrightarrow> \<not> flt b a"
  by (cases a; cases b; simp)

lemma fle_total: "a \<noteq> NaN \<Longrightarrow> b \<noteq> NaN \<Longrightarrow> \<not> flt a b \<Longrightarrow> fle b a"
  by (cases a; cases b; simp)

lemma flt_imp_fle: "flt a b \<Longrightarrow> fle a b"
  by (cases a; cases b; simp)

lemma fle_trans: "fle a b \<Longrightarrow> fle b c \<Longrightarrow> fle a c"
  by (cases a; cases b; cases c; simp)

lemma fle_refl: "a \<noteq> NaN \<Longrightarrow> fle a a"
  by (cases a; simp)

lemma fle_neq_flt: "fle a b \<Longrightarrow> a \<noteq> b \<Longrightarrow> flt a b"
  by (cases a; cases b; simp)

lemma float_cases: "fge m (Finite 60) \<or> flt m (Finite 60) \<or> m = NaN"
  by (cases m) (auto simp: fge_def)

section \<open>Grade classifier: the contract\<close>

text \<open>
  C5. An input that \<open>float\<close> converts to a value at least 60 is classified PASS; one that
  it converts to a value below 60, or to NaN, is classified FAIL; and one that it cannot
  convert is classified UNKNOWN. Every float is at least 60, below 60 or NaN, so these are
  all the cases. The mark 60.0 is PASS and the mark 59.99 is FAIL.
\<close>

theorem get_status_contract:
  "(py_float fs v = Some m \<and> fge m (Finite 60) \<longrightarrow> get_status fs v = PASS) \<and>
   (py_float fs v = Some m \<and> flt m (Finite 60) \<longrightarrow> get_status fs v = FAIL) \<and>
   (py_float fs v = Some NaN \<longrightarrow> get_status fs v = FAIL) \<and>
   (py_float fs v = None \<longrightarrow> get_status fs v = UNKNOWN) \<and>
   (fge m (Finite 60) \<or> flt m (Finite 60) \<or> m = NaN) \<and>
   get_status fs (PyFloat (Finite 60)) = PASS \<and>
   get_status fs (PyFloat (Finite (5999 / 100))) = FAIL"
proof -
  have ge: "py_float fs v = Some m \<and> fge m (Finite 60) \<longrightarrow> get_status fs v = PASS"
    by (simp add: get_status_def)
  have lt: "py_float fs v = Some m \<and> flt m (Finite 60) \<longrightarrow> get_status fs v = FAIL"
    using flt_not_fle [of m "Finite 60"] by (auto simp: get_status_def fge_def)
  have nan: "py_float fs v = Some NaN \<longrightarrow> get_status fs v = FAIL"
    by (simp add: get_status_def fge_def)
  have un: "py_float fs v = None \<longrightarrow> get_status fs v = UNKNOWN"
    by (simp add: get_status_def)
  have ex: "get_status fs (PyFloat (Finite 60)) = PASS \<and>
            get_status fs (PyFloat (Finite (5999 / 100))) = FAIL"
    by (simp add: get_status_def fge_def)
  from ge lt nan un ex float_cases [of m] show ?thesis by blast
qed

theorem get_status_contract_witness:
  "get_status (\<lambda>s. if s = ''75'' then Some (Finite 75) else if s = ''12'' then Some (Finite 12)
                    else if s = ''nan'' then Some NaN else None)
     (PyStr ''75'') = PASS \<and>
   get_status (\<lambda>s. if s = ''75'' then Some (Finite 75) else if s = ''12'' then Some (Finite 12)
                    else if s = ''nan'' then Some NaN else None)
     (PyStr ''12'') = FAIL \<and>
   get_status (\<lambda>s. if s = ''75'' then Some (Finite 75) else if s = ''12'' then Some (Finite 12)
                    else if s = ''nan'' then Some NaN else None)
     (PyStr ''nan'') = FAIL \<and>
   get_status (\<lambda>s. if s = ''75'' then Some (Finite 75) else if s = ''12'' then Some (Finite 12)
                    else if s = ''nan'' then Some NaN else None)
     (PyStr ''abc'') = UNKNOWN \<and>
   get_status (\<lambda>s. None) PyNone = UNKNOWN"
  using get_status_contract [of "\<lambda>s. if s = ''75'' then Some (Finite 75) else if s = ''12'' then Some (Finite 12)
                    else if s = ''nan'' then Some NaN else None"
          "PyStr ''75''" "Finite 75"]
        get_status_contract [of "\<lambda>s. if s = ''75'' then Some (Finite 75) else if s = ''12'' then Some (Finite 12)
                    else if s = ''nan'' then Some NaN else None"
          "PyStr ''12''" "Finite 12"]
        get_status_contract [of "\<lambda>s. if s = ''75'' then Some (Finite 75) else if s = ''12'' then Some (Finite 12)
                    else if s = ''nan'' then Some NaN else None"
          "PyStr ''nan''" "NaN"]
        get_status_contract [of "\<lambda>s. if s = ''75'' then Some (Finite 75) else if s = ''12'' then Some (Finite 12)
                    else if s = ''nan'' then Some NaN else None"
          "PyStr ''abc''" "Finite 0"]
        get_status_contract [of "\<lambda>s. None" PyNone "Finite 0"]
  by (simp add: fge_def)

text \<open>
  NaN, as a float and as the value of the text \<open>nan\<close>, is neither at least 60 nor below 60,
  and it is classified FAIL, not UNKNOWN.
\<close>

theorem nan_classified_fail:
  "get_status (\<lambda>s. None) (PyFloat NaN) = FAIL \<and>
   get_status (\<lambda>s. if s = ''nan'' then Some NaN else None) (PyStr ''nan'') = FAIL \<and>
   \<not> fge NaN (Finite 60) \<and> \<not> flt NaN (Finite 60)"
  by (simp add: get_status_def fge_def)

section \<open>Grouping, sorting and the maximum\<close>

lemma set_first_occurrences: "set (first_occurrences xs) = set xs"
  by (induction xs) auto

lemma distinct_first_occurrences: "distinct (first_occurrences xs)"
  by (induction xs) (auto simp: set_first_occurrences)

lemma first_occurrences_snoc:
  "first_occurrences (xs @ [x]) =
     (if x \<in> set xs then first_occurrences xs else first_occurrences xs @ [x])"
  by (induction xs) auto

lemma group_append_map:
  "distinct ns \<Longrightarrow>
   group_append s (map (\<lambda>n. (n, F n)) ns) =
     (if name s \<in> set ns
      then map (\<lambda>n. (n, if n = name s then F n @ [s] else F n)) ns
      else map (\<lambda>n. (n, F n)) ns @ [(name s, [s])])"
  by (induction ns) auto

lemma filter_key_empty: "f x \<notin> set (map f xs) \<Longrightarrow> filter (\<lambda>y. f y = f x) xs = []"
  by (induction xs) auto

lemma subject_groups_eq:
  "subject_groups occs =
     map (\<lambda>n. (n, filter (\<lambda>x. name x = n) occs)) (first_occurrences (map name occs))"
proof (induction occs rule: rev_induct)
  case Nil
  show ?case by (simp add: subject_groups_def)
next
  case (snoc x xs)
  let ?ns = "first_occurrences (map name xs)"
  have step: "subject_groups (xs @ [x]) = group_append x (subject_groups xs)"
    by (simp add: subject_groups_def)
  have d: "distinct ?ns" by (rule distinct_first_occurrences)
  have mem: "(name x \<in> set ?ns) = (name x \<in> set (map name xs))"
    by (simp only: set_first_occurrences)
  show ?case
  proof (cases "name x \<in> set (map name xs)")
    case True
    then show ?thesis
      unfolding step snoc.IH group_append_map [OF d] mem
      by (simp add: first_occurrences_snoc)
  next
    case False
    then have e: "filter (\<lambda>y. name y = name x) xs = []"
      by (rule filter_key_empty)
    have ne: "\<forall>n\<in>set ?ns. n \<noteq> name x \<and> name x \<noteq> n"
      using False by (metis set_first_occurrences)
    from False show ?thesis
      unfolding step snoc.IH group_append_map [OF d] mem
      using e ne by (simp add: first_occurrences_snoc)
  qed
qed

lemma those_map_Some:
  "(\<forall>x\<in>set xs. f x \<noteq> None) \<Longrightarrow> those (map f xs) = Some (map (\<lambda>x. the (f x)) xs)"
  by (induction xs) auto

lemma sort_key_head:
  assumes "g \<noteq> []"
  shows "\<exists>old rest. sort_key k g = old # rest \<and> old \<in> set g \<and> (\<forall>y\<in>set g. k old \<le> k y)"
proof -
  have "sort_key k g \<noteq> []" using assms by (metis length_sort length_0_conv)
  then obtain old rest where e: "sort_key k g = old # rest" by (cases "sort_key k g") auto
  have s: "sorted (map k (old # rest))" using sorted_sort_key [of k g] e by simp
  have st: "set (old # rest) = set g" using set_sort [of k g] e by simp
  from s have "\<forall>y\<in>set rest. k old \<le> k y" by auto
  with st e show ?thesis by auto
qed

lemma py_max_from_mem: "py_max_from k m xs \<in> set (m # xs)"
  by (induction xs arbitrary: m) auto

lemma py_max_from_upper:
  "\<forall>y\<in>set (m # xs). k y \<noteq> NaN \<Longrightarrow>
   fle (k m) (k (py_max_from k m xs)) \<and> (\<forall>y\<in>set xs. fle (k y) (k (py_max_from k m xs)))"
proof (induction xs arbitrary: m)
  case Nil
  then show ?case by (simp add: fle_refl)
next
  case (Cons x xs)
  show ?case
  proof (cases "fgt (k x) (k m)")
    case True
    have ih: "fle (k x) (k (py_max_from k x xs)) \<and> (\<forall>y\<in>set xs. fle (k y) (k (py_max_from k x xs)))"
      using Cons.IH [of x] Cons.prems by simp
    have "fle (k m) (k x)" using True by (simp add: fgt_def flt_imp_fle)
    with ih have "fle (k m) (k (py_max_from k x xs))" using fle_trans by blast
    with ih True show ?thesis by simp
  next
    case False
    have ih: "fle (k m) (k (py_max_from k m xs)) \<and> (\<forall>y\<in>set xs. fle (k y) (k (py_max_from k m xs)))"
      using Cons.IH [of m] Cons.prems by simp
    have "fle (k x) (k m)" using False Cons.prems by (simp add: fgt_def fle_total)
    with ih have "fle (k x) (k (py_max_from k m xs))" using fle_trans by blast
    with ih False show ?thesis by simp
  qed
qed

lemma py_max_from_keep:
  "\<forall>y\<in>set xs. fle (k y) (k m) \<Longrightarrow> py_max_from k m xs = m"
  by (induction xs) (auto simp: fgt_def dest: fle_not_flt)

lemma py_max_from_first:
  "flt (k m) (k x) \<Longrightarrow> \<forall>y\<in>set pre. flt (k y) (k x) \<Longrightarrow> \<forall>y\<in>set post. fle (k y) (k x) \<Longrightarrow>
   py_max_from k m (pre @ x # post) = x"
proof (induction pre arbitrary: m)
  case Nil
  then show ?case by (simp add: fgt_def py_max_from_keep)
next
  case (Cons p pre)
  then show ?case by simp
qed

lemma py_max_first:
  assumes "g = pre @ x # post" "\<forall>y\<in>set pre. flt (k y) (k x)" "\<forall>y\<in>set post. fle (k y) (k x)"
  shows "py_max k g = Some x"
proof (cases pre)
  case Nil
  then show ?thesis using assms by (simp add: py_max_def py_max_from_keep)
next
  case (Cons p ps)
  then show ?thesis using assms by (simp add: py_max_def py_max_from_first)
qed

lemma reconcile_group_Some:
  assumes "g \<noteq> []"
  shows "\<exists>old new. reconcile_group fs (n, g) =
            Some \<lparr> name = n, mark = mark new, status = get_status fs (PyFloat (mark new)),
                   semester = semester old, mark_display = mark_display new,
                   release_date = release_date old, parsed_date = parsed_date old \<rparr>
          \<and> py_max mark g = Some new \<and> new \<in> set g
          \<and> old \<in> set g \<and> (\<forall>y\<in>set g. date_key old \<le> date_key y)"
proof -
  obtain old rest where o: "sort_key date_key g = old # rest" "old \<in> set g"
      "\<forall>y\<in>set g. date_key old \<le> date_key y"
    using sort_key_head [OF assms, of date_key] by blast
  obtain x xs where g: "g = x # xs" using assms by (cases g) auto
  have m: "py_max mark g = Some (py_max_from mark x xs)" by (simp add: g py_max_def)
  have mem: "py_max_from mark x xs \<in> set g" using py_max_from_mem [of mark x xs] g by simp
  show ?thesis
    using o m mem
    by (intro exI [of _ old] exI [of _ "py_max_from mark x xs"]) (simp add: reconcile_group_def)
qed

lemma reconcile_group_name:
  "g \<noteq> [] \<Longrightarrow> name (the (reconcile_group fs (n, g))) = n"
  using reconcile_group_Some [of g fs n] by auto

lemma group_nonempty:
  "n \<in> set (first_occurrences (map name occs)) \<Longrightarrow> filter (\<lambda>x. name x = n) occs \<noteq> []"
  by (auto simp: set_first_occurrences filter_empty_conv)

lemma final_subjects_eq:
  "final_subjects fs occs =
     Some (map (\<lambda>n. the (reconcile_group fs (n, filter (\<lambda>x. name x = n) occs)))
               (first_occurrences (map name occs)))"
proof -
  have "\<forall>n\<in>set (first_occurrences (map name occs)).
           reconcile_group fs (n, filter (\<lambda>x. name x = n) occs) \<noteq> None"
  proof
    fix n assume "n \<in> set (first_occurrences (map name occs))"
    then have "filter (\<lambda>x. name x = n) occs \<noteq> []" by (rule group_nonempty)
    then show "reconcile_group fs (n, filter (\<lambda>x. name x = n) occs) \<noteq> None"
      using reconcile_group_Some [of "filter (\<lambda>x. name x = n) occs" fs n] by auto
  qed
  then show ?thesis
    unfolding final_subjects_def subject_groups_eq map_map comp_def
    using those_map_Some [of "first_occurrences (map name occs)"
        "\<lambda>n. reconcile_group fs (n, filter (\<lambda>x. name x = n) occs)"]
    by simp
qed

lemma final_subjects_names:
  "final_subjects fs occs = Some fin \<Longrightarrow> map name fin = first_occurrences (map name occs)"
proof -
  assume a: "final_subjects fs occs = Some fin"
  have "map name (map (\<lambda>n. the (reconcile_group fs (n, filter (\<lambda>x. name x = n) occs)))
               (first_occurrences (map name occs))) = first_occurrences (map name occs)"
    unfolding map_map comp_def
    by (rule map_idI) (simp add: reconcile_group_name group_nonempty)
  with a show ?thesis by (simp add: final_subjects_eq)
qed

lemma final_subjects_record:
  assumes "final_subjects fs occs = Some fin" "x0 \<in> set occs"
  shows "\<exists>r\<in>set fin. reconcile_group fs (name x0, filter (\<lambda>x. name x = name x0) occs) = Some r"
proof -
  let ?g = "filter (\<lambda>x. name x = name x0) occs"
  have ne: "?g \<noteq> []" using assms(2) by (auto simp: filter_empty_conv)
  then obtain r where r: "reconcile_group fs (name x0, ?g) = Some r"
    using reconcile_group_Some [of ?g fs "name x0"] by auto
  have "name x0 \<in> set (first_occurrences (map name occs))"
    using assms(2) by (simp add: set_first_occurrences)
  then have "the (reconcile_group fs (name x0, ?g)) \<in> set fin"
    using assms(1) unfolding final_subjects_eq by auto
  with r show ?thesis by auto
qed

lemma distinct_map_insort:
  "distinct (map g (insort_key k x xs)) = distinct (map g (x # xs))"
  by (induction xs) (auto simp: set_insort_key)

lemma distinct_map_sort: "distinct (map g (sort_key k xs)) = distinct (map g xs)"
  by (induction xs) (simp_all add: distinct_map_insort)

lemma sorted_final_subjects_total:
  "\<exists>fin. final_subjects fs occs = Some fin \<and>
         sorted_final_subjects fs occs = Some (sort_key date_key fin)"
  by (simp add: sorted_final_subjects_def final_subjects_eq)

text \<open>
  C2. The reconciliation never fails, and its output has exactly one record for each
  distinct subject name of the input: the names of the output are pairwise distinct and
  are the names that occur in the input.
\<close>

theorem one_record_per_name:
  "\<exists>out. sorted_final_subjects fs occs = Some out \<and>
         distinct (map name out) \<and> set (map name out) = set (map name occs)"
proof -
  obtain fin where f: "final_subjects fs occs = Some fin"
      and s: "sorted_final_subjects fs occs = Some (sort_key date_key fin)"
    using sorted_final_subjects_total by blast
  have n: "map name fin = first_occurrences (map name occs)"
    using f by (rule final_subjects_names)
  have d: "distinct (map name (sort_key date_key fin))"
    by (simp add: distinct_map_sort n distinct_first_occurrences)
  have "set (map name (sort_key date_key fin)) = set (map name fin)" by simp
  then have e: "set (map name (sort_key date_key fin)) = set (map name occs)"
    by (simp only: n set_first_occurrences)
  from s d e show ?thesis by blast
qed

theorem one_record_per_name_witness:
  "\<exists>out. sorted_final_subjects (\<lambda>s. None)
       [occurrence (\<lambda>s. None) ''A'' ''1'' ''55'' (Finite 55) ''2024/01/10'',
        occurrence (\<lambda>s. None) ''B'' ''1'' ''80'' (Finite 80) ''N/A'',
        occurrence (\<lambda>s. None) ''A'' ''2'' ''90'' (Finite 90) ''2023/09/01''] = Some out \<and>
     distinct (map name out) \<and> set (map name out) = {''A'', ''B''}"
  using one_record_per_name [of "\<lambda>s. None"
      "[occurrence (\<lambda>s. None) ''A'' ''1'' ''55'' (Finite 55) ''2024/01/10'',
        occurrence (\<lambda>s. None) ''B'' ''1'' ''80'' (Finite 80) ''N/A'',
        occurrence (\<lambda>s. None) ''A'' ''2'' ''90'' (Finite 90) ''2023/09/01'']"]
  by (simp add: occurrence_def insert_commute)

lemma map_filter_distinct:
  assumes "distinct (map f xs)"
  shows "map f (filter P xs) = filter (\<lambda>n. n \<in> f ` {x \<in> set xs. P x}) (map f xs)"
proof -
  have inj: "inj_on f (set xs)" using assms by (simp add: distinct_map)
  have same: "(f x \<in> f ` {y \<in> set xs. P y}) = P x" if x: "x \<in> set xs" for x
  proof
    assume "f x \<in> f ` {y \<in> set xs. P y}"
    then obtain y where y: "y \<in> set xs" "P y" "f x = f y" by blast
    have "x = y" using inj x y(1,3) unfolding inj_on_def by blast
    then show "P x" using y(2) by simp
  next
    assume "P x"
    then show "f x \<in> f ` {y \<in> set xs. P y}" using x by blast
  qed
  have "filter (\<lambda>n. n \<in> f ` {x \<in> set xs. P x}) (map f xs)
          = map f (filter (\<lambda>x. f x \<in> f ` {y \<in> set xs. P y}) xs)"
    by (simp add: filter_map comp_def)
  also have "filter (\<lambda>x. f x \<in> f ` {y \<in> set xs. P y}) xs = filter P xs"
    by (rule filter_cong [OF refl]) (rule same)
  finally show ?thesis by simp
qed

text \<open>
  C9. Before the final sort the records stand in the order in which their names first
  occur in the rows, and the sort keeps the relative order of the records that carry the
  same date key (among them all records with an unparsable date): the names of the
  records of the final list with one date key are in the order of their first occurrence
  in the rows.
\<close>

theorem equal_dates_keep_first_occurrence_order:
  "\<exists>fin out. final_subjects fs occs = Some fin \<and> sorted_final_subjects fs occs = Some out \<and>
     map name fin = first_occurrences (map name occs) \<and>
     (\<forall>k. filter (\<lambda>s. date_key s = k) out = filter (\<lambda>s. date_key s = k) fin) \<and>
     (\<forall>k. map name (filter (\<lambda>s. date_key s = k) out) =
          filter (\<lambda>n. n \<in> name ` {s \<in> set out. date_key s = k})
            (first_occurrences (map name occs)))"
proof -
  obtain fin where f: "final_subjects fs occs = Some fin"
      and s: "sorted_final_subjects fs occs = Some (sort_key date_key fin)"
    using sorted_final_subjects_total by blast
  have n: "map name fin = first_occurrences (map name occs)"
    using f by (rule final_subjects_names)
  have st: "\<forall>k. filter (\<lambda>s. date_key s = k) (sort_key date_key fin)
                 = filter (\<lambda>s. date_key s = k) fin"
    by (simp add: sort_key_stable)
  have d: "distinct (map name fin)" by (simp add: n distinct_first_occurrences)
  have "map name (filter (\<lambda>s. date_key s = k) (sort_key date_key fin)) =
          filter (\<lambda>n. n \<in> name ` {s \<in> set (sort_key date_key fin). date_key s = k})
            (first_occurrences (map name occs))" for k
  proof -
    have "map name (filter (\<lambda>s. date_key s = k) (sort_key date_key fin))
            = map name (filter (\<lambda>s. date_key s = k) fin)"
      using st by simp
    also have "\<dots> = filter (\<lambda>n. n \<in> name ` {s \<in> set fin. date_key s = k}) (map name fin)"
      by (rule map_filter_distinct [OF d])
    also have "set fin = set (sort_key date_key fin)" by simp
    finally show ?thesis by (simp only: n)
  qed
  with f s n st show ?thesis by blast
qed

theorem equal_dates_keep_first_occurrence_order_witness:
  "\<exists>fin out. final_subjects (\<lambda>s. None)
       [occurrence (\<lambda>s. None) ''B'' ''1'' ''80'' (Finite 80) ''N/A'',
        occurrence (\<lambda>s. None) ''A'' ''1'' ''55'' (Finite 55) ''n/a'',
        occurrence (\<lambda>s. None) ''B'' ''2'' ''90'' (Finite 90) ''2023/09/01''] = Some fin \<and>
     sorted_final_subjects (\<lambda>s. None)
       [occurrence (\<lambda>s. None) ''B'' ''1'' ''80'' (Finite 80) ''N/A'',
        occurrence (\<lambda>s. None) ''A'' ''1'' ''55'' (Finite 55) ''n/a'',
        occurrence (\<lambda>s. None) ''B'' ''2'' ''90'' (Finite 90) ''2023/09/01''] = Some out \<and>
     map name fin = [''B'', ''A''] \<and>
     (\<forall>k. filter (\<lambda>s. date_key s = k) out = filter (\<lambda>s. date_key s = k) fin) \<and>
     (\<forall>k. map name (filter (\<lambda>s. date_key s = k) out) =
          filter (\<lambda>n. n \<in> name ` {s \<in> set out. date_key s = k}) [''B'', ''A''])"
  using equal_dates_keep_first_occurrence_order [of "\<lambda>s. None"
      "[occurrence (\<lambda>s. None) ''B'' ''1'' ''80'' (Finite 80) ''N/A'',
        occurrence (\<lambda>s. None) ''A'' ''1'' ''55'' (Finite 55) ''n/a'',
        occurrence (\<lambda>s. None) ''B'' ''2'' ''90'' (Finite 90) ''2023/09/01'']"]
  by (simp add: occurrence_def)

lemmas parse_date_defs =
  parse_date_def strip_def py_isspace_def digit_between_def digit_val_def days_in_month_def
  is_leap_def days_before_year_def days_before_month_def

lemma parse_date_examples:
  "parse_date ''2024/01/10'' = Some 738894"
  "parse_date ''2023/09/01'' = Some 738763"
  "parse_date ''2024/03/01'' = Some 738945"
  "parse_date ''0001/01/01'' = Some 0"
  "parse_date ''N/A'' = None"
  by (simp_all add: parse_date_defs)

lemma py_max_upper:
  assumes "py_max k g = Some new" "\<forall>y\<in>set g. k y \<noteq> NaN"
  shows "\<forall>y\<in>set g. fle (k y) (k new)"
proof (cases g)
  case Nil
  then show ?thesis by simp
next
  case (Cons a rest)
  then have n: "new = py_max_from k a rest" using assms(1) by (simp add: py_max_def)
  show ?thesis
    using py_max_from_upper [of a rest k] assms(2) unfolding Cons n by simp
qed

lemma sorted_final_subjects_record:
  assumes "x0 \<in> set occs"
  shows "\<exists>out r. sorted_final_subjects fs occs = Some out \<and> r \<in> set out \<and>
           reconcile_group fs (name x0, filter (\<lambda>x. name x = name x0) occs) = Some r"
proof -
  obtain fin where f: "final_subjects fs occs = Some fin"
      and s: "sorted_final_subjects fs occs = Some (sort_key date_key fin)"
    using sorted_final_subjects_total by blast
  obtain r where "r \<in> set fin"
      "reconcile_group fs (name x0, filter (\<lambda>x. name x = name x0) occs) = Some r"
    using final_subjects_record [OF f assms] by blast
  with s show ?thesis by auto
qed

lemmas eval_defs =
  sorted_final_subjects_def final_subjects_def subject_groups_def reconcile_group_def
  py_max_def date_key_def datetime_min_def occurrence_def get_status_def fgt_def fge_def
  parse_date_examples

text \<open>
  C3. The final list is sorted ascending by the date key, the carried parsed
  date with the minimum for an unparsable one. A subject whose only occurrence has an
  unparsable date is in the list, with that occurrence's date text, and every subject
  placed before it has an unparsable date or the parsed date 0001-01-01, which is the
  minimum itself; so it stands before every subject with a later parsed date.
\<close>

theorem final_list_sorted_by_date_key:
  "\<exists>out. sorted_final_subjects fs occs = Some out \<and> sorted (map date_key out) \<and>
     (\<forall>x. x \<in> set occs \<and> filter (\<lambda>y. name y = name x) occs = [x] \<and> parsed_date x = None \<longrightarrow>
        (\<exists>pre r post. out = pre @ r # post \<and> name r = name x \<and> parsed_date r = None \<and>
            release_date r = release_date x \<and>
            (\<forall>t\<in>set pre. parsed_date t = None \<or> parsed_date t = Some datetime_min)))"
proof -
  obtain fin where f: "final_subjects fs occs = Some fin"
      and s: "sorted_final_subjects fs occs = Some (sort_key date_key fin)"
    using sorted_final_subjects_total by blast
  let ?out = "sort_key date_key fin"
  have so: "sorted (map date_key ?out)" by (rule sorted_sort_key)
  have "\<exists>pre r post. ?out = pre @ r # post \<and> name r = name x \<and> parsed_date r = None \<and>
            release_date r = release_date x \<and>
            (\<forall>t\<in>set pre. parsed_date t = None \<or> parsed_date t = Some datetime_min)"
    if a: "x \<in> set occs" "filter (\<lambda>y. name y = name x) occs = [x]" "parsed_date x = None" for x
  proof -
    obtain r where r: "r \<in> set fin"
        "reconcile_group fs (name x, filter (\<lambda>y. name y = name x) occs) = Some r"
      using final_subjects_record [OF f a(1)] by blast
    have rf: "name r = name x \<and> parsed_date r = None \<and> release_date r = release_date x"
      using r(2) a(2,3) by (auto simp: reconcile_group_def py_max_def)
    have "r \<in> set ?out" using r(1) by simp
    then obtain pre post where sp: "?out = pre @ r # post" by (meson split_list)
    have k: "date_key r = datetime_min" using rf by (simp add: date_key_def)
    have "\<forall>t\<in>set pre. date_key t \<le> date_key r"
      using so unfolding sp by (auto simp: sorted_append)
    then have "\<forall>t\<in>set pre. date_key t = datetime_min"
      using k by (simp add: datetime_min_def)
    moreover have "parsed_date t = None \<or> parsed_date t = Some datetime_min"
      if "date_key t = datetime_min" for t
      using that by (cases "parsed_date t") (simp_all add: date_key_def)
    ultimately have "\<forall>t\<in>set pre. parsed_date t = None \<or> parsed_date t = Some datetime_min"
      by blast
    with sp rf show ?thesis by blast
  qed
  with s so show ?thesis by blast
qed

theorem final_list_sorted_by_date_key_witness:
  "\<exists>out pre r post.
     sorted_final_subjects (\<lambda>s. None)
       [occurrence (\<lambda>s. None) ''A'' ''1'' ''70'' (Finite 70) ''2024/01/10'',
        occurrence (\<lambda>s. None) ''B'' ''1'' ''80'' (Finite 80) ''N/A''] = Some out \<and>
     sorted (map date_key out) \<and> out = pre @ r # post \<and> name r = ''B'' \<and>
     parsed_date r = None \<and> release_date r = ''N/A''"
  using final_list_sorted_by_date_key [of "\<lambda>s. None"
      "[occurrence (\<lambda>s. None) ''A'' ''1'' ''70'' (Finite 70) ''2024/01/10'',
        occurrence (\<lambda>s. None) ''B'' ''1'' ''80'' (Finite 80) ''N/A'']"]
  by (force simp: occurrence_def parse_date_examples)

text \<open>
  The date text \<open>0001/01/01\<close> parses to \<open>datetime.min\<close>, the key of an unparsable date:
  subject \<open>A\<close> with this valid date stays before subject \<open>B\<close> with the date \<open>N/A\<close>.
\<close>

theorem unparsable_date_after_minimum_date:
  "sorted_final_subjects (\<lambda>s. None)
     [occurrence (\<lambda>s. None) ''A'' ''1'' ''70'' (Finite 70) ''0001/01/01'',
      occurrence (\<lambda>s. None) ''B'' ''1'' ''80'' (Finite 80) ''N/A'']
   = Some [\<lparr> name = ''A'', mark = Finite 70, status = PASS, semester = ''1'',
              mark_display = ''70'', release_date = ''0001/01/01'', parsed_date = Some 0 \<rparr>,
           \<lparr> name = ''B'', mark = Finite 80, status = PASS, semester = ''1'',
              mark_display = ''80'', release_date = ''N/A'', parsed_date = None \<rparr>]
   \<and> parse_date ''0001/01/01'' = Some datetime_min \<and> parse_date ''N/A'' = None"
  by (simp add: eval_defs)

text \<open>
  C1. For every subject name of the input the output has a record with that
  name; it carries the semester label, the date text and the parsed date of an occurrence
  of that name whose date key (the parsed date, the minimum for an unparsable one) is least
  in the group; and, when no mark of the group is NaN, it carries a mark of the group that
  every mark of the group is at most. For the marks 55, 90, 70 on the dates 2024/01/10,
  2023/09/01, 2024/03/01 the record has the mark 90, the date 2023/09/01 and the semester
  label of the second occurrence.
\<close>

theorem record_carries_max_mark_and_oldest_date:
  "(x0 \<in> set occs \<longrightarrow>
     (\<exists>out r. sorted_final_subjects fs occs = Some out \<and> r \<in> set out \<and> name r = name x0 \<and>
        (\<exists>old\<in>set occs. name old = name x0 \<and> semester r = semester old \<and>
            release_date r = release_date old \<and> parsed_date r = parsed_date old \<and>
            (\<forall>x\<in>set occs. name x = name x0 \<longrightarrow> date_key old \<le> date_key x)) \<and>
        ((\<forall>x\<in>set occs. name x = name x0 \<longrightarrow> mark x \<noteq> NaN) \<longrightarrow>
           (\<exists>new\<in>set occs. name new = name x0 \<and> mark r = mark new \<and>
              (\<forall>x\<in>set occs. name x = name x0 \<longrightarrow> fle (mark x) (mark new)))))) \<and>
   sorted_final_subjects fs
     [occurrence fs ''Math'' ''S1'' ''55'' (Finite 55) ''2024/01/10'',
      occurrence fs ''Math'' ''S2'' ''90'' (Finite 90) ''2023/09/01'',
      occurrence fs ''Math'' ''S3'' ''70'' (Finite 70) ''2024/03/01'']
   = Some [\<lparr> name = ''Math'', mark = Finite 90, status = PASS, semester = ''S2'',
              mark_display = ''90'', release_date = ''2023/09/01'',
              parsed_date = Some 738763 \<rparr>]"
proof -
  have general: "\<exists>out r. sorted_final_subjects fs occs = Some out \<and> r \<in> set out \<and> name r = name x0 \<and>
        (\<exists>old\<in>set occs. name old = name x0 \<and> semester r = semester old \<and>
            release_date r = release_date old \<and> parsed_date r = parsed_date old \<and>
            (\<forall>x\<in>set occs. name x = name x0 \<longrightarrow> date_key old \<le> date_key x)) \<and>
        ((\<forall>x\<in>set occs. name x = name x0 \<longrightarrow> mark x \<noteq> NaN) \<longrightarrow>
           (\<exists>new\<in>set occs. name new = name x0 \<and> mark r = mark new \<and>
              (\<forall>x\<in>set occs. name x = name x0 \<longrightarrow> fle (mark x) (mark new))))"
    if x0: "x0 \<in> set occs"
  proof -
    let ?g = "filter (\<lambda>x. name x = name x0) occs"
    have ne: "?g \<noteq> []" using x0 by (auto simp: filter_empty_conv)
    obtain out r where o: "sorted_final_subjects fs occs = Some out" "r \<in> set out"
        "reconcile_group fs (name x0, ?g) = Some r"
      using sorted_final_subjects_record [OF x0] by blast
    obtain old new where rn:
        "reconcile_group fs (name x0, ?g) =
            Some \<lparr> name = name x0, mark = mark new, status = get_status fs (PyFloat (mark new)),
                   semester = semester old, mark_display = mark_display new,
                   release_date = release_date old, parsed_date = parsed_date old \<rparr>"
        "py_max mark ?g = Some new" "new \<in> set ?g" "old \<in> set ?g"
        "\<forall>y\<in>set ?g. date_key old \<le> date_key y"
      using reconcile_group_Some [OF ne, of fs "name x0"] by blast
    have r: "r = \<lparr> name = name x0, mark = mark new, status = get_status fs (PyFloat (mark new)),
                   semester = semester old, mark_display = mark_display new,
                   release_date = release_date old, parsed_date = parsed_date old \<rparr>"
      using o(3) rn(1) by simp
    have date: "\<exists>old\<in>set occs. name old = name x0 \<and> semester r = semester old \<and>
            release_date r = release_date old \<and> parsed_date r = parsed_date old \<and>
            (\<forall>x\<in>set occs. name x = name x0 \<longrightarrow> date_key old \<le> date_key x)"
      using rn(4,5) by (intro bexI [of _ old]) (simp_all add: r)
    have mk: "\<exists>new\<in>set occs. name new = name x0 \<and> mark r = mark new \<and>
              (\<forall>x\<in>set occs. name x = name x0 \<longrightarrow> fle (mark x) (mark new))"
      if nn: "\<forall>x\<in>set occs. name x = name x0 \<longrightarrow> mark x \<noteq> NaN"
    proof -
      have "\<forall>y\<in>set ?g. mark y \<noteq> NaN" using nn by simp
      then have "\<forall>y\<in>set ?g. fle (mark y) (mark new)"
        using py_max_upper [OF rn(2)] by blast
      then show ?thesis
        using rn(3) by (intro bexI [of _ new]) (simp_all add: r)
    qed
    have nr: "name r = name x0" by (simp add: r)
    from o(1,2) nr date mk show ?thesis by blast
  qed
  have example: "sorted_final_subjects fs
     [occurrence fs ''Math'' ''S1'' ''55'' (Finite 55) ''2024/01/10'',
      occurrence fs ''Math'' ''S2'' ''90'' (Finite 90) ''2023/09/01'',
      occurrence fs ''Math'' ''S3'' ''70'' (Finite 70) ''2024/03/01'']
   = Some [\<lparr> name = ''Math'', mark = Finite 90, status = PASS, semester = ''S2'',
              mark_display = ''90'', release_date = ''2023/09/01'',
              parsed_date = Some 738763 \<rparr>]"
    by (simp add: eval_defs)
  from general example show ?thesis by blast
qed

theorem record_carries_max_mark_and_oldest_date_witness:
  "\<exists>out r. sorted_final_subjects (\<lambda>s. None)
       [occurrence (\<lambda>s. None) ''A'' ''1'' ''55'' (Finite 55) ''2024/01/10'',
        occurrence (\<lambda>s. None) ''B'' ''1'' ''80'' (Finite 80) ''N/A'',
        occurrence (\<lambda>s. None) ''A'' ''2'' ''90'' (Finite 90) ''2023/09/01''] = Some out \<and>
     r \<in> set out \<and> name r = ''A'' \<and> mark r = Finite 90 \<and> semester r = ''2'' \<and>
     release_date r = ''2023/09/01''"
proof -
  let ?a1 = "occurrence (\<lambda>s. None) ''A'' ''1'' ''55'' (Finite 55) ''2024/01/10''"
  let ?b = "occurrence (\<lambda>s. None) ''B'' ''1'' ''80'' (Finite 80) ''N/A''"
  let ?a2 = "occurrence (\<lambda>s. None) ''A'' ''2'' ''90'' (Finite 90) ''2023/09/01''"
  have mem: "?a1 \<in> set [?a1, ?b, ?a2]" by simp
  have nonan: "\<forall>x\<in>set [?a1, ?b, ?a2]. name x = name ?a1 \<longrightarrow> mark x \<noteq> NaN"
    by (simp add: occurrence_def)
  obtain out r where o: "sorted_final_subjects (\<lambda>s. None) [?a1, ?b, ?a2] = Some out"
      "r \<in> set out" "name r = name ?a1"
      and old: "\<exists>old\<in>set [?a1, ?b, ?a2]. name old = name ?a1 \<and> semester r = semester old \<and>
            release_date r = release_date old \<and> parsed_date r = parsed_date old \<and>
            (\<forall>x\<in>set [?a1, ?b, ?a2]. name x = name ?a1 \<longrightarrow> date_key old \<le> date_key x)"
      and new: "\<exists>new\<in>set [?a1, ?b, ?a2]. name new = name ?a1 \<and> mark r = mark new \<and>
              (\<forall>x\<in>set [?a1, ?b, ?a2]. name x = name ?a1 \<longrightarrow> fle (mark x) (mark new))"
    using record_carries_max_mark_and_oldest_date [of ?a1 "[?a1, ?b, ?a2]" "\<lambda>s. None"]
      mem nonan by blast
  have m: "mark r = Finite 90"
    using new by (auto simp: occurrence_def)
  have d: "semester r = ''2'' \<and> release_date r = ''2023/09/01''"
    using old by (auto simp: occurrence_def date_key_def parse_date_examples)
  have n: "name r = ''A''" using o(3) by (simp add: occurrence_def)
  from o(1,2) n m d show ?thesis by blast
qed

text \<open>
  A mark cell \<open>nan\<close> is converted by \<open>float\<close> to NaN. For the marks NaN, 90 in this row order
  the record carries NaN, which is not the greatest mark of the group.
\<close>

theorem nan_mark_carried_over_greater_mark:
  "sorted_final_subjects (\<lambda>s. None)
     [occurrence (\<lambda>s. None) ''Math'' ''S1'' ''nan'' NaN ''2024/01/10'',
      occurrence (\<lambda>s. None) ''Math'' ''S2'' ''90'' (Finite 90) ''2023/09/01'']
   = Some [\<lparr> name = ''Math'', mark = NaN, status = FAIL, semester = ''S2'',
              mark_display = ''nan'', release_date = ''2023/09/01'',
              parsed_date = Some 738763 \<rparr>]
   \<and> \<not> fle (Finite 90) NaN \<and> NaN \<noteq> Finite 90"
  by (simp add: eval_defs)

lemma first_maximum_record:
  assumes "filter (\<lambda>y. name y = n) occs = pre @ x # post"
    and "\<forall>y\<in>set pre. flt (mark y) (mark x)"
    and "\<forall>y\<in>set post. fle (mark y) (mark x)"
  shows "\<exists>out r. sorted_final_subjects fs occs = Some out \<and> r \<in> set out \<and> name r = n \<and>
           mark r = mark x \<and> mark_display r = mark_display x"
proof -
  let ?g = "filter (\<lambda>y. name y = n) occs"
  have "x \<in> set ?g" using assms(1) by simp
  then have x: "x \<in> set occs" "name x = n" by auto
  have ne: "?g \<noteq> []" using assms(1) by simp
  obtain out r where o: "sorted_final_subjects fs occs = Some out" "r \<in> set out"
      "reconcile_group fs (n, ?g) = Some r"
    using sorted_final_subjects_record [OF x(1), of fs] x(2) by auto
  have mx: "py_max mark ?g = Some x"
    using assms by (rule py_max_first)
  obtain old new :: subject where rn:
      "reconcile_group fs (n, ?g) =
          Some \<lparr> name = n, mark = mark new, status = get_status fs (PyFloat (mark new)),
                 semester = semester old, mark_display = mark_display new,
                 release_date = release_date old, parsed_date = parsed_date old \<rparr>"
      "py_max mark ?g = Some new"
    using reconcile_group_Some [OF ne, of fs n] by blast
  have "new = x" using mx rn(2) by simp
  then have "name r = n \<and> mark r = mark x \<and> mark_display r = mark_display x"
    using o(3) rn(1) by auto
  with o(1,2) show ?thesis by blast
qed

text \<open>
  C4. Within a subject group in which no mark is NaN, the first occurrence in row order
  that has the greatest mark of the group supplies the mark and the mark display string of
  the record: when two or more occurrences tie for the maximum, the first of them wins.
\<close>

theorem first_tied_maximum_supplies_mark:
  assumes "filter (\<lambda>y. name y = n) occs = pre @ x # post"
    and "\<forall>y\<in>set (pre @ x # post). mark y \<noteq> NaN"
    and "\<forall>y\<in>set (pre @ x # post). fle (mark y) (mark x)"
    and "\<forall>y\<in>set pre. mark y \<noteq> mark x"
  shows "\<exists>out r. sorted_final_subjects fs occs = Some out \<and> r \<in> set out \<and> name r = n \<and>
           mark r = mark x \<and> mark_display r = mark_display x"
proof -
  have before: "\<forall>y\<in>set pre. flt (mark y) (mark x)"
    using assms(3,4) by (simp add: fle_neq_flt)
  have after: "\<forall>y\<in>set post. fle (mark y) (mark x)"
    using assms(3) by simp
  show ?thesis
    using assms(1) before after by (rule first_maximum_record)
qed

theorem first_tied_maximum_supplies_mark_witness:
  "\<exists>out r. sorted_final_subjects (\<lambda>s. None)
       [occurrence (\<lambda>s. None) ''A'' ''1'' ''70'' (Finite 70) ''2024/01/10'',
        occurrence (\<lambda>s. None) ''A'' ''1'' ''90'' (Finite 90) ''2024/02/10'',
        occurrence (\<lambda>s. None) ''B'' ''1'' ''95'' (Finite 95) ''2024/02/10'',
        occurrence (\<lambda>s. None) ''A'' ''2'' ''90.0'' (Finite 90) ''2023/09/01''] = Some out \<and>
     r \<in> set out \<and> name r = ''A'' \<and> mark r = Finite 90 \<and> mark_display r = ''90''"
  using first_tied_maximum_supplies_mark [of "''A''"
      "[occurrence (\<lambda>s. None) ''A'' ''1'' ''70'' (Finite 70) ''2024/01/10'',
        occurrence (\<lambda>s. None) ''A'' ''1'' ''90'' (Finite 90) ''2024/02/10'',
        occurrence (\<lambda>s. None) ''B'' ''1'' ''95'' (Finite 95) ''2024/02/10'',
        occurrence (\<lambda>s. None) ''A'' ''2'' ''90.0'' (Finite 90) ''2023/09/01'']"
      "[occurrence (\<lambda>s. None) ''A'' ''1'' ''70'' (Finite 70) ''2024/01/10'']"
      "occurrence (\<lambda>s. None) ''A'' ''1'' ''90'' (Finite 90) ''2024/02/10''"
      "[occurrence (\<lambda>s. None) ''A'' ''2'' ''90.0'' (Finite 90) ''2023/09/01'']"
      "\<lambda>s. None"]
  by (simp add: occurrence_def)

text \<open>
  For the marks NaN, 90, 90 in this row order the two occurrences with 90 tie for the
  maximum, and the record takes its mark and its display string from the first row, not
  from the first of the two.
\<close>

theorem nan_mark_supplied_before_tied_maximum:
  "sorted_final_subjects (\<lambda>s. None)
     [occurrence (\<lambda>s. None) ''Math'' ''S1'' ''nan'' NaN ''2024/01/10'',
      occurrence (\<lambda>s. None) ''Math'' ''S1'' ''90'' (Finite 90) ''2024/01/10'',
      occurrence (\<lambda>s. None) ''Math'' ''S1'' ''90.0'' (Finite 90) ''2024/01/10'']
   = Some [\<lparr> name = ''Math'', mark = NaN, status = FAIL, semester = ''S1'',
              mark_display = ''nan'', release_date = ''2024/01/10'',
              parsed_date = Some 738894 \<rparr>]"
  by (simp add: eval_defs)

section \<open>The report\<close>

lemma annotations_append: "annotations (xs @ ys) = annotations xs @ annotations ys"
  by (induction xs rule: annotations.induct) simp_all

lemma pass_counts_append: "pass_counts (xs @ ys) = pass_counts xs @ pass_counts ys"
  by (induction xs rule: pass_counts.induct) simp_all

lemma annotations_subject_lines:
  "annotations (subject_lines i cs ss) =
     map (\<lambda>s. if fge (mark s) (Finite 60) then Check else Cross) ss"
  by (induction ss arbitrary: i cs) (simp_all add: Let_def annotations_append)

lemma pass_counts_subject_lines: "pass_counts (subject_lines i cs ss) = []"
  by (induction ss arbitrary: i cs) (simp_all add: Let_def pass_counts_append)

lemma get_status_float: "(get_status fs (PyFloat m) = PASS) = fge m (Finite 60)"
  by (simp add: get_status_def)

lemma length_filter_Check:
  "length (filter ((\<lambda>a. a = Check) \<circ> (\<lambda>s. if P s then Check else Cross)) ss)
     = length (filter P ss)"
  by (induction ss) simp_all

lemma final_subjects_status:
  assumes "final_subjects fs occs = Some fin" "r \<in> set fin"
  shows "status r = get_status fs (PyFloat (mark r))"
proof -
  obtain n where n: "n \<in> set (first_occurrences (map name occs))"
      "r = the (reconcile_group fs (n, filter (\<lambda>x. name x = n) occs))"
    using assms unfolding final_subjects_eq by auto
  have "filter (\<lambda>x. name x = n) occs \<noteq> []" using n(1) by (rule group_nonempty)
  then show ?thesis
    using reconcile_group_Some [of "filter (\<lambda>x. name x = n) occs" fs n] n(2) by auto
qed

text \<open>
  C8. In the report of a student with at least one subject, the mark line of each subject
  carries the check mark exactly when the grade classifier gives PASS for the subject's
  mark, and the cross otherwise; the pass count of the summary is the number of mark lines
  with the check mark; and the status a reconciled subject carries is the classifier's
  status of its mark.
\<close>

theorem annotation_agrees_with_classifier:
  assumes "subjects sd \<noteq> []"
  shows "\<exists>ls. format_student_message mean (Some sd) = Report ls \<and>
     annotations ls =
       map (\<lambda>s. if get_status fs (PyFloat (mark s)) = PASS then Check else Cross) (subjects sd) \<and>
     pass_counts ls = [length (filter (\<lambda>a. a = Check) (annotations ls))] \<and>
     (sorted_final_subjects fs occs = Some (subjects sd) \<longrightarrow>
        (\<forall>s\<in>set (subjects sd). status s = get_status fs (PyFloat (mark s))))"
proof -
  let ?ls = "[NameLine (student_name sd), IdLine (student_id sd), Blank]
             @ subject_lines 0 None (subjects sd)
             @ [Blank, AverageLine (mean (map mark (subjects sd)))
                         (rating_of (mean (map mark (subjects sd)))),
                CountLine (passed_count (subjects sd))
                  (length (subjects sd) - passed_count (subjects sd))]"
  have f: "format_student_message mean (Some sd) = Report ?ls"
    using assms by (simp add: format_student_message_def Let_def)
  have a: "annotations ?ls =
       map (\<lambda>s. if get_status fs (PyFloat (mark s)) = PASS then Check else Cross) (subjects sd)"
    by (simp add: annotations_append annotations_subject_lines get_status_float)
  have a': "annotations ?ls =
       map (\<lambda>s. if fge (mark s) (Finite 60) then Check else Cross) (subjects sd)"
    by (simp add: annotations_append annotations_subject_lines)
  have p: "pass_counts ?ls = [length (filter (\<lambda>a. a = Check) (annotations ?ls))]"
    unfolding a'
    by (simp add: pass_counts_append pass_counts_subject_lines passed_count_def
        length_filter_Check)
  have s: "\<forall>s\<in>set (subjects sd). status s = get_status fs (PyFloat (mark s))"
    if "sorted_final_subjects fs occs = Some (subjects sd)"
  proof -
    obtain fin where fin: "final_subjects fs occs = Some fin"
        "sorted_final_subjects fs occs = Some (sort_key date_key fin)"
      using sorted_final_subjects_total by blast
    then have "set (subjects sd) = set fin" using that by auto
    then show ?thesis using final_subjects_status [OF fin(1)] by blast
  qed
  from f a p s show ?thesis by blast
qed

theorem annotation_agrees_with_classifier_witness:
  "\<exists>ls. format_student_message (\<lambda>ms. Finite 72)
       (Some \<lparr> student_name = ''N'', year = ''Y'', student_id = ''1'',
               subjects =
                 [\<lparr> name = ''A'', mark = Finite 90, status = PASS, semester = ''1'',
                     mark_display = ''90'', release_date = ''2023/09/01'',
                     parsed_date = Some 738763 \<rparr>,
                  \<lparr> name = ''B'', mark = Finite 54, status = FAIL, semester = ''2'',
                     mark_display = ''54'', release_date = ''2024/01/10'',
                     parsed_date = Some 738894 \<rparr>] \<rparr>) = Report ls \<and>
     annotations ls = [Check, Cross] \<and> pass_counts ls = [1]"
  using annotation_agrees_with_classifier [of
       "\<lparr> student_name = ''N'', year = ''Y'', student_id = ''1'',
               subjects =
                 [\<lparr> name = ''A'', mark = Finite 90, status = PASS, semester = ''1'',
                     mark_display = ''90'', release_date = ''2023/09/01'',
                     parsed_date = Some 738763 \<rparr>,
                  \<lparr> name = ''B'', mark = Finite 54, status = FAIL, semester = ''2'',
                     mark_display = ''54'', release_date = ''2024/01/10'',
                     parsed_date = Some 738894 \<rparr>] \<rparr>"
       "\<lambda>ms. Finite 72" "\<lambda>s. None" "[]"]
  by (auto simp: get_status_def fge_def)

section \<open>The handler\<close>

lemma split_nn_not_newline:
  "c \<noteq> CHR 0x0A \<Longrightarrow> t \<noteq> [] \<Longrightarrow>
   split_nn (c # t) = (case split_nn t of p # ps \<Rightarrow> (c # p) # ps | [] \<Rightarrow> [[c]])"
  by (cases t) simp_all

lemma split_nn_replicate:
  "c \<noteq> CHR 0x0A \<Longrightarrow>
   split_nn (replicate n c @ CHR 0x0A # CHR 0x0A # s) = replicate n c # split_nn s"
  by (induction n) (simp_all add: split_nn_not_newline)

lemma split_nn_join:
  "concat (map (\<lambda>p. p @ [CHR 0x0A, CHR 0x0A]) (split_nn t)) = t @ [CHR 0x0A, CHR 0x0A]"
proof (induction t rule: split_nn.induct)
  case 1
  show ?case by simp
next
  case (2 a)
  show ?case by simp
next
  case (3 a b s)
  show ?case
  proof (cases "a = CHR 0x0A \<and> b = CHR 0x0A")
    case True
    then show ?thesis using 3 by simp
  next
    case False
    then show ?thesis using 3 by (cases "split_nn (b # s)") auto
  qed
qed

lemma concat_pack_parts:
  "concat (pack_parts cur parts) = cur @ concat (map (\<lambda>p. p @ [CHR 0x0A, CHR 0x0A]) parts)"
  by (induction parts arbitrary: cur) simp_all

text \<open>
  The texts sent for a long report are, put together in order, the report followed by
  two newlines: the splitting loses and reorders nothing.
\<close>

lemma send_report_concat:
  "4000 < length t \<Longrightarrow> concat (send_report t) = t @ [CHR 0x0A, CHR 0x0A]"
  by (simp add: send_report_def concat_pack_parts split_nn_join)

lemma pack_parts_nonempty: "cur \<noteq> [] \<Longrightarrow> pack_parts cur parts \<noteq> []"
  by (induction parts arbitrary: cur) auto

lemma pack_parts_two:
  "cur \<noteq> [] \<Longrightarrow> 4000 < length (cur @ concat (map (\<lambda>p. p @ [CHR 0x0A, CHR 0x0A]) parts)) \<Longrightarrow>
   length cur \<le> 4000 \<or> parts \<noteq> [] \<Longrightarrow> 2 \<le> length (pack_parts cur parts)"
proof (induction parts arbitrary: cur)
  case Nil
  then show ?case by simp
next
  case (Cons p ps)
  show ?case
  proof (cases "4000 < length (cur @ p @ [CHR 0x0A, CHR 0x0A])")
    case True
    have "pack_parts (p @ [CHR 0x0A, CHR 0x0A]) ps \<noteq> []"
      by (rule pack_parts_nonempty) simp
    then have "1 \<le> length (pack_parts (p @ [CHR 0x0A, CHR 0x0A]) ps)"
      by (cases "pack_parts (p @ [CHR 0x0A, CHR 0x0A]) ps") simp_all
    then show ?thesis using True Cons.prems(1) by simp
  next
    case False
    have "2 \<le> length (pack_parts (cur @ p @ [CHR 0x0A, CHR 0x0A]) ps)"
      using Cons.IH [of "cur @ p @ [CHR 0x0A, CHR 0x0A]"] Cons.prems(2) False by simp
    then show ?thesis using False by simp
  qed
qed

text \<open>
  A long report with at least one blank line is sent as at least two texts, and when no
  part between blank lines has more than 3998 characters, each text sent has at most 4000.
\<close>

lemma send_report_two_texts:
  assumes "4000 < length t" "2 \<le> length (split_nn t)"
  shows "2 \<le> length (send_report t)"
proof -
  obtain p ps where sp: "split_nn t = p # ps" "ps \<noteq> []"
    using assms(2) by (cases "split_nn t"; cases "tl (split_nn t)") auto
  have j: "concat (map (\<lambda>p. p @ [CHR 0x0A, CHR 0x0A]) (p # ps)) = t @ [CHR 0x0A, CHR 0x0A]"
    using split_nn_join [of t] sp(1) by simp
  have first: "pack_parts [] (p # ps) = pack_parts (p @ [CHR 0x0A, CHR 0x0A]) ps"
    by simp
  have "length (concat (map (\<lambda>p. p @ [CHR 0x0A, CHR 0x0A]) (p # ps))) = length t + 2"
    by (simp only: j) simp
  then have "4000 < length ((p @ [CHR 0x0A, CHR 0x0A]) @ concat (map (\<lambda>p. p @ [CHR 0x0A, CHR 0x0A]) ps))"
    using assms(1) by simp
  then have "2 \<le> length (pack_parts (p @ [CHR 0x0A, CHR 0x0A]) ps)"
    using sp(2) by (intro pack_parts_two) simp_all
  then show ?thesis using assms(1) sp(1) by (simp add: send_report_def)
qed

lemma pack_parts_bounded:
  "\<forall>p\<in>set parts. length p \<le> 3998 \<Longrightarrow> length cur \<le> 4000 \<Longrightarrow>
   \<forall>c\<in>set (pack_parts cur parts). length c \<le> 4000"
proof (induction parts arbitrary: cur)
  case Nil
  then show ?case by simp
next
  case (Cons p ps)
  have p: "length (p @ [CHR 0x0A, CHR 0x0A]) \<le> 4000" using Cons.prems(1) by simp
  have ps: "\<forall>q\<in>set ps. length q \<le> 3998" using Cons.prems(1) by simp
  show ?case
  proof (cases "4000 < length (cur @ p @ [CHR 0x0A, CHR 0x0A])")
    case True
    have "\<forall>c\<in>set (pack_parts (p @ [CHR 0x0A, CHR 0x0A]) ps). length c \<le> 4000"
      using Cons.IH [OF ps p] .
    then show ?thesis using True Cons.prems(2) by auto
  next
    case False
    then have "length (cur @ p @ [CHR 0x0A, CHR 0x0A]) \<le> 4000" by simp
    then have "\<forall>c\<in>set (pack_parts (cur @ p @ [CHR 0x0A, CHR 0x0A]) ps). length c \<le> 4000"
      using Cons.IH [OF ps] by blast
    then show ?thesis using False by simp
  qed
qed

lemma send_report_bounded:
  "\<forall>p\<in>set (split_nn t). length p \<le> 3998 \<Longrightarrow> \<forall>c\<in>set (send_report t). length c \<le> 4000"
  using pack_parts_bounded [of "split_nn t" "[]"] by (simp add: send_report_def)

text \<open>
  C6. A report of the shape the formatter produces, header, blank line, subject lines,
  blank line, summary, whose subject lines have 4001 characters: the text has more than
  4000 characters and is sent as three texts, the second of which has 4003 characters,
  more than the threshold.
\<close>

theorem long_paragraph_sent_whole:
  "map length
     (send_report (''H'' @ [CHR 0x0A, CHR 0x0A] @ replicate 4001 (CHR ''x'')
                    @ [CHR 0x0A, CHR 0x0A] @ ''S''))
   = [3, 4003, 3]"
proof -
  have sp: "split_nn (''H'' @ [CHR 0x0A, CHR 0x0A] @ replicate 4001 (CHR ''x'')
                    @ [CHR 0x0A, CHR 0x0A] @ ''S'')
            = [''H'', replicate 4001 (CHR ''x''), ''S'']"
    by (simp add: split_nn_replicate)
  show ?thesis
    by (simp only: send_report_def sp) simp
qed

lemma strip_all_space: "list_all py_isspace text \<Longrightarrow> strip text = []"
proof -
  assume "list_all py_isspace text"
  then have e: "dropWhile py_isspace text = []"
    by (simp add: list_all_iff)
  show ?thesis by (simp only: strip_def e) simp
qed

text \<open>
  C7. When the text of the message, stripped of whitespace at both ends, is
  empty or has a character that \<open>str.isdigit\<close> rejects, the only thing the handler does
  is to reply with the invalid-id message: the fetcher is not called. The identifier
  \<open>abc123\<close> is such a text.
\<close>

theorem invalid_identifier_not_fetched:
  "(\<not> isdigit (strip text) \<longrightarrow> handle_student_id fetch mean text_of text = [ReplyInvalidId]) \<and>
   handle_student_id fetch mean text_of ''abc123'' = [ReplyInvalidId]"
proof -
  have guard: "\<not> isdigit (strip text) \<longrightarrow> handle_student_id fetch mean text_of text = [ReplyInvalidId]"
    by (simp add: handle_student_id_def)
  have "strip ''abc123'' = ''abc123''"
    by (simp add: strip_def py_isspace_def)
  moreover have "\<not> isdigit ''abc123''"
    by (simp add: isdigit_def isdigit_char_def)
  ultimately have "handle_student_id fetch mean text_of ''abc123'' = [ReplyInvalidId]"
    by (simp add: handle_student_id_def)
  with guard show ?thesis by blast
qed

theorem invalid_identifier_not_fetched_witness:
  "handle_student_id (\<lambda>s. None) (\<lambda>ms. NaN) (\<lambda>m. []) ''12 34'' = [ReplyInvalidId]"
  using invalid_identifier_not_fetched [of "''12 34''" "\<lambda>s. None" "\<lambda>ms. NaN" "\<lambda>m. []"]
  by (simp add: isdigit_def isdigit_char_def strip_def py_isspace_def)

text \<open>
  The superscript two, U+00B2, is no decimal digit, and \<open>str.isdigit\<close> accepts it: the
  fetcher is called with it.
\<close>

theorem superscript_digit_is_fetched:
  "handle_student_id (\<lambda>s. None) (\<lambda>ms. NaN) (\<lambda>m. []) [CHR 0xB2]
     = [SendTyping, ReplySearching, FetchStudentData [CHR 0xB2], ReplyNotFound]
   \<and> \<not> digit_between 0 9 (CHR 0xB2)"
  by (simp add: handle_student_id_def isdigit_def isdigit_char_def strip_def py_isspace_def
      digit_between_def)

text \<open>
  C10. The text of the message is stripped of whitespace at both ends before the
  digits-only test: a text made of whitespace only, the empty text among them, gets the
  invalid-id reply and nothing else; a text whose stripped form passes the test is
  fetched under the stripped form; and for \<open> 202112345 \<close> the fetcher is called with
  \<open>202112345\<close>.
\<close>

theorem identifier_stripped_before_validation:
  "(list_all py_isspace text \<longrightarrow> handle_student_id fetch mean text_of text = [ReplyInvalidId]) \<and>
   (isdigit (strip text) \<longrightarrow>
      take 3 (handle_student_id fetch mean text_of text)
        = [SendTyping, ReplySearching, FetchStudentData (strip text)]) \<and>
   take 3 (handle_student_id fetch mean text_of '' 202112345 '')
     = [SendTyping, ReplySearching, FetchStudentData ''202112345'']"
proof -
  have a: "list_all py_isspace text \<longrightarrow> handle_student_id fetch mean text_of text = [ReplyInvalidId]"
    by (simp add: handle_student_id_def strip_all_space isdigit_def)
  have b: "isdigit (strip text) \<longrightarrow>
      take 3 (handle_student_id fetch mean text_of text)
        = [SendTyping, ReplySearching, FetchStudentData (strip text)]"
    by (simp add: handle_student_id_def Let_def)
  have c: "take 3 (handle_student_id fetch mean text_of '' 202112345 '')
     = [SendTyping, ReplySearching, FetchStudentData ''202112345'']"
    by (simp add: handle_student_id_def isdigit_def isdigit_char_def strip_def py_isspace_def
        Let_def)
  from a b c show ?thesis by blast
qed

theorem identifier_stripped_before_validation_witness:
  "handle_student_id (\<lambda>s. None) (\<lambda>ms. NaN) (\<lambda>m. []) [CHR '' '', CHR 0x09, CHR 0x0A] = [ReplyInvalidId] \<and>
   handle_student_id (\<lambda>s. None) (\<lambda>ms. NaN) (\<lambda>m. []) [] = [ReplyInvalidId] \<and>
   take 3 (handle_student_id (\<lambda>s. None) (\<lambda>ms. NaN) (\<lambda>m. []) [CHR 0x09, CHR ''4'', CHR ''2'', CHR '' ''])
     = [SendTyping, ReplySearching, FetchStudentData ''42'']"
  using identifier_stripped_before_validation [of "[CHR '' '', CHR 0x09, CHR 0x0A]" "\<lambda>s. None" "\<lambda>ms. NaN" "\<lambda>m. []"]
    identifier_stripped_before_validation [of "[]" "\<lambda>s. None" "\<lambda>ms. NaN" "\<lambda>m. []"]
    identifier_stripped_before_validation [of "[CHR 0x09, CHR ''4'', CHR ''2'', CHR '' '']" "\<lambda>s. None" "\<lambda>ms. NaN" "\<lambda>m. []"]
  by (simp add: isdigit_def isdigit_char_def strip_def py_isspace_def Let_def)

end
